theory Spec2Isabelle
  imports Main "HOL-Library.AList"
begin

section \<open>Plain JavaScript objects as ordered key/value lists\<close>

text \<open>
  Both registries keep their state in a plain object indexed by string identifiers
  (\<^verbatim>\<open>Search\<close> and \<^verbatim>\<open>Filters\<close>). Such an object is modelled as an association list
  in insertion order whose keys are pairwise distinct (\<open>wf_object\<close>). The list holds
  the own properties. The literal \<^verbatim>\<open>{...obj, [id]: v}\<close> is \<open>AList.update id v obj\<close> (an
  existing key keeps its position, a new key goes to the end) and \<^verbatim>\<open>delete obj[id]\<close>
  is \<open>AList.delete id obj\<close>; both act on own properties only. The reordering of
  integer-like keys by the engine is not modelled, and no property below depends on
  the enumeration order.

  State updates \<^verbatim>\<open>setX((prev) => next)\<close> are modelled by the function from \<open>prev\<close> to
  \<open>next\<close>. A store is a value of the declared type \<^verbatim>\<open>Search\<close> or \<^verbatim>\<open>Filters\<close>: each own
  property holds an entry with the declared fields. The in-place assignments
  \<^verbatim>\<open>updated[id].query.value = null\<close> are modelled by replacing the entry with the
  changed copy: entries are values here, so the effect of such an assignment on
  another identifier or on the previous store that shares the same entry object is
  not represented.
\<close>

type_synonym 'v object = "(string \<times> 'v) list"

definition wf_object :: "'v object \<Rightarrow> bool" where
  "wf_object obj = distinct (map fst obj)"

definition Object_keys :: "'v object \<Rightarrow> string list" where
  "Object_keys obj = map fst obj"

text \<open>The object spread \<^verbatim>\<open>{...target, ...source}\<close>: the own properties of \<open>source\<close>
  are assigned onto a copy of \<open>target\<close>, in the order of \<open>source\<close>.\<close>

definition spread :: "'v object \<Rightarrow> 'v object \<Rightarrow> 'v object" where
  "spread target source = fold (\<lambda>(k, v) acc. AList.update k v acc) source target"

subsection \<open>Inherited members\<close>

text \<open>
  Every plain object inherits the members of \<^verbatim>\<open>Object.prototype\<close>. These are the names
  the language defines for it; each of them holds a function, except \<^verbatim>\<open>__proto__\<close>,
  an accessor whose getter yields \<^verbatim>\<open>Object.prototype\<close> itself. All these values are
  truthy objects that have no member \<^verbatim>\<open>query\<close>, \<^verbatim>\<open>hasUrlSync\<close> or \<^verbatim>\<open>value\<close>.
\<close>

definition Object_prototype_names :: "string list" where
  "Object_prototype_names =
     [''constructor'', ''__defineGetter__'', ''__defineSetter__'', ''hasOwnProperty'',
      ''__lookupGetter__'', ''__lookupSetter__'', ''isPrototypeOf'',
      ''propertyIsEnumerable'', ''toString'', ''valueOf'', ''__proto__'',
      ''toLocaleString'']"

text \<open>The outcome of the read \<^verbatim>\<open>obj[id]\<close>: an own property wins, then the inherited
  member of that name, and otherwise the read gives \<^verbatim>\<open>undefined\<close>.\<close>

datatype 'v property = Undefined | Own 'v | Inherited

definition getProperty :: "'v object \<Rightarrow> string \<Rightarrow> 'v property" where
  "getProperty obj k =
     (case map_of obj k of
        Some v \<Rightarrow> Own v
      | None \<Rightarrow> (if k \<in> set Object_prototype_names then Inherited else Undefined))"

text \<open>The operator \<^verbatim>\<open>id in obj\<close> also follows the prototype chain.\<close>

definition hasProperty :: "'v object \<Rightarrow> string \<Rightarrow> bool" where
  "hasProperty obj k \<longleftrightarrow> k \<in> set (Object_keys obj) \<or> k \<in> set Object_prototype_names"

text \<open>The assignment \<^verbatim>\<open>obj[id] = v\<close> of an object \<open>v\<close>. For the name \<^verbatim>\<open>__proto__\<close>, when
  it is not an own property, the inherited setter runs: it replaces the prototype of
  \<open>obj\<close> and creates no own property. The prototype link of an object is not
  represented, so the own properties stay as they are.\<close>

definition assignProperty :: "string \<Rightarrow> 'v \<Rightarrow> 'v object \<Rightarrow> 'v object" where
  "assignProperty k v obj =
     (if k = ''__proto__'' \<and> map_of obj k = None then obj else AList.update k v obj)"

subsection \<open>Thrown errors and loops\<close>

text \<open>A thrown \<^verbatim>\<open>Error\<close> with its message, or the \<^verbatim>\<open>TypeError\<close> that the engine throws on
  reading or writing a member of \<^verbatim>\<open>undefined\<close>.\<close>

datatype Error = Error string | TypeError

text \<open>\<^verbatim>\<open>Array.prototype.forEach\<close> with a callback that updates a state and may throw:
  the first throw ends the loop.\<close>

fun forEach :: "('k \<Rightarrow> 's \<Rightarrow> Error + 's) \<Rightarrow> 'k list \<Rightarrow> 's \<Rightarrow> Error + 's" where
  "forEach f [] s = Inr s"
| "forEach f (k # ks) s = (case f k s of Inl e \<Rightarrow> Inl e | Inr s' \<Rightarrow> forEach f ks s')"

section \<open>Data model\<close>

text \<open>\<^verbatim>\<open>search.types.ts\<close>: \<^verbatim>\<open>value: string | null\<close>, and an entry with an optional flag.\<close>

record SearchValue =
  "value" :: "string option"

record SearchInstance =
  query :: SearchValue
  hasUrlSync :: "bool option"

type_synonym Search = "SearchInstance object"

text \<open>The filter types: \<^verbatim>\<open>value: unknown | null\<close> and an optional category.\<close>

record 'a FilterValue =
  fvalue :: "'a option"
  category :: "string option"

type_synonym 'a Filters = "'a FilterValue object"

section \<open>The search registry\<close>

text \<open>
  Every mutator below is the updater function that the source hands to
  \<^verbatim>\<open>setSearchInstances\<close>: it maps the previous store to the next one.
\<close>

definition addSearchInstance :: "string \<Rightarrow> SearchValue \<Rightarrow> bool \<Rightarrow> Search \<Rightarrow> Search" where
  "addSearchInstance id' q sync prev =
     AList.update id' \<lparr>query = q, hasUrlSync = Some sync\<rparr> prev"

definition addSearchInstances :: "Search \<Rightarrow> Search \<Rightarrow> Search" where
  "addSearchInstances instances prev = spread prev instances"

text \<open>\<^verbatim>\<open>prev[id]?.hasUrlSync || false\<close>: a missing entry, an inherited member (which has
  no \<^verbatim>\<open>hasUrlSync\<close>) and a missing flag all give \<^verbatim>\<open>undefined\<close>, which \<^verbatim>\<open>||\<close> replaces
  by \<^verbatim>\<open>false\<close>.\<close>

definition prevSyncOrFalse :: "Search \<Rightarrow> string \<Rightarrow> bool" where
  "prevSyncOrFalse prev id' =
     (case getProperty prev id' of
        Undefined \<Rightarrow> False
      | Inherited \<Rightarrow> False
      | Own inst \<Rightarrow> (case hasUrlSync inst of None \<Rightarrow> False | Some b \<Rightarrow> (if b then b else False)))"

definition updateSearchInstance :: "string \<Rightarrow> SearchValue \<Rightarrow> Search \<Rightarrow> Search" where
  "updateSearchInstance id' q prev =
     AList.update id' \<lparr>query = q, hasUrlSync = Some (prevSyncOrFalse prev id')\<rparr> prev"

definition updateSearchInstances :: "Search \<Rightarrow> Search \<Rightarrow> Search" where
  "updateSearchInstances instances prev = spread prev instances"

text \<open>
  \<^verbatim>\<open>getSearchInstance\<close> returns \<^verbatim>\<open>undefined\<close> when \<^verbatim>\<open>searchInstances[id]\<close> is falsy, and
  otherwise a fresh object made of the two members \<^verbatim>\<open>query\<close> and \<^verbatim>\<open>hasUrlSync\<close> read
  from \<^verbatim>\<open>searchInstances[id]\<close>. Read from an inherited member, both are
  \<^verbatim>\<open>undefined\<close>, so the \<^verbatim>\<open>query\<close> of the returned object is optional here.
\<close>

record FoundInstance =
  found_query :: "SearchValue option"
  found_hasUrlSync :: "bool option"

definition getSearchInstance :: "Search \<Rightarrow> string \<Rightarrow> FoundInstance option" where
  "getSearchInstance searchInstances id' =
     (case getProperty searchInstances id' of
        Undefined \<Rightarrow> None
      | Own inst \<Rightarrow> Some \<lparr>found_query = Some (query inst), found_hasUrlSync = hasUrlSync inst\<rparr>
      | Inherited \<Rightarrow> Some \<lparr>found_query = None, found_hasUrlSync = None\<rparr>)"

text \<open>The callback that \<^verbatim>\<open>getSearchInstances\<close> hands to \<^verbatim>\<open>reduce\<close>:
  \<^verbatim>\<open>if (instance) { acc[currId] = instance; }\<close>.\<close>

definition getSearchInstances_callback ::
  "Search \<Rightarrow> string \<Rightarrow> FoundInstance object \<Rightarrow> FoundInstance object" where
  "getSearchInstances_callback searchInstances currId acc =
     (case getSearchInstance searchInstances currId of
        None \<Rightarrow> acc
      | Some inst \<Rightarrow> assignProperty currId inst acc)"

text \<open>The interface declares the result of \<^verbatim>\<open>getSearchInstances\<close> as
  \<^verbatim>\<open>Search | undefined\<close>; \<open>None\<close> stands for \<^verbatim>\<open>undefined\<close>. The body is the
  \<^verbatim>\<open>reduce\<close> over the requested identifiers, starting from the empty object.\<close>

definition getSearchInstances :: "Search \<Rightarrow> string list \<Rightarrow> FoundInstance object option" where
  "getSearchInstances searchInstances ids =
     Some (fold (getSearchInstances_callback searchInstances) ids [])"

text \<open>\<^verbatim>\<open>hasSearchInstance\<close> is \<^verbatim>\<open>id in searchInstances\<close>.\<close>

definition hasSearchInstance :: "Search \<Rightarrow> string \<Rightarrow> bool" where
  "hasSearchInstance searchInstances id' \<longleftrightarrow> hasProperty searchInstances id'"

definition hasSearchInstances :: "Search \<Rightarrow> Search \<Rightarrow> bool" where
  "hasSearchInstances searchInstances instances =
     list_all (\<lambda>k. hasSearchInstance searchInstances k) (Object_keys instances)"

definition hasAnySearchInstance :: "Search \<Rightarrow> bool" where
  "hasAnySearchInstance searchInstances \<longleftrightarrow> length (Object_keys searchInstances) > 0"

definition removeSearchInstance :: "string \<Rightarrow> Search \<Rightarrow> Search" where
  "removeSearchInstance id' prev = AList.delete id' prev"

definition removeSearchInstances :: "Search \<Rightarrow> Search \<Rightarrow> Search" where
  "removeSearchInstances instances prev =
     fold (\<lambda>k updated. AList.delete k updated) (Object_keys instances) prev"

definition removeAllSearchInstances :: "Search \<Rightarrow> Search" where
  "removeAllSearchInstances prev = []"

text \<open>\<^verbatim>\<open>resetSearchInstance\<close> writes a fresh entry \<^verbatim>\<open>{ query: { value: null } }\<close>
  without looking at the previous store; the entry has no \<^verbatim>\<open>hasUrlSync\<close> field.\<close>

definition resetSearchInstance :: "string \<Rightarrow> Search \<Rightarrow> Search" where
  "resetSearchInstance id' prev =
     AList.update id' \<lparr>query = \<lparr>value = None\<rparr>, hasUrlSync = None\<rparr> prev"

text \<open>The loop body shared by \<^verbatim>\<open>resetSearchInstances\<close> and
  \<^verbatim>\<open>resetAllSearchInstances\<close>:
  \<^verbatim>\<open>if (updated[id]) { updated[id].query.value = null; }\<close>. An own entry is an object
  and therefore truthy. An inherited member is truthy as well, and its \<^verbatim>\<open>query\<close> is
  \<^verbatim>\<open>undefined\<close>, so the assignment to \<^verbatim>\<open>query.value\<close> throws.\<close>

definition nullQuery :: "SearchInstance \<Rightarrow> SearchInstance" where
  "nullQuery inst = inst\<lparr>query := (query inst)\<lparr>value := None\<rparr>\<rparr>"

definition resetQueryAt :: "string \<Rightarrow> Search \<Rightarrow> Error + Search" where
  "resetQueryAt k updated =
     (case getProperty updated k of
        Undefined \<Rightarrow> Inr updated
      | Own inst \<Rightarrow> Inr (AList.update k (nullQuery inst) updated)
      | Inherited \<Rightarrow> Inl TypeError)"

definition resetSearchInstances :: "Search \<Rightarrow> Search \<Rightarrow> Error + Search" where
  "resetSearchInstances instances prev = forEach resetQueryAt (Object_keys instances) prev"

definition resetAllSearchInstances :: "Search \<Rightarrow> Error + Search" where
  "resetAllSearchInstances prev = forEach resetQueryAt (Object_keys prev) prev"

section \<open>The URL bridge of the search registry\<close>

text \<open>
  What the provider reads from the router: the current path, the entries of the
  current query string, and the serialisation \<^verbatim>\<open>URLSearchParams.toString\<close>, which
  belongs to the platform and is kept as a parameter. A call of \<^verbatim>\<open>router.push(url)\<close>
  is recorded by returning \<open>url\<close>; an operation returns the list of its pushes, or the
  error it throws before it pushes.
\<close>

record Navigation =
  pathname :: string
  urlSearchParams :: "(string \<times> string) list"
  toString :: "(string \<times> string) list \<Rightarrow> string"

text \<open>\<^verbatim>\<open>Object.fromEntries\<close>: a repeated name keeps its first position and its last value.\<close>

definition Object_fromEntries :: "(string \<times> string) list \<Rightarrow> string object" where
  "Object_fromEntries entries = fold (\<lambda>(k, v) acc. AList.update k v acc) entries []"

text \<open>\<^verbatim>\<open>URLSearchParams.set\<close>: the first pair of that name takes the value and the later
  ones are dropped; without such a pair, the pair is appended.\<close>

fun URLSearchParams_set :: "string \<Rightarrow> string \<Rightarrow> (string \<times> string) list \<Rightarrow> (string \<times> string) list" where
  "URLSearchParams_set name v [] = [(name, v)]"
| "URLSearchParams_set name v (p # ps) =
     (if fst p = name then (name, v) # filter (\<lambda>q. fst q \<noteq> name) ps
      else p # URLSearchParams_set name v ps)"

text \<open>\<^verbatim>\<open>URLSearchParams.get\<close>: the value of the first pair of that name.\<close>

definition URLSearchParams_get :: "(string \<times> string) list \<Rightarrow> string \<Rightarrow> string option" where
  "URLSearchParams_get params name = map_of params name"

text \<open>\<^verbatim>\<open>searchInstances[id]?.query.value || ''\<close>: a missing entry, a \<^verbatim>\<open>null\<close> value and
  the empty string all give the empty string. The \<^verbatim>\<open>?.\<close> guards only the first read:
  for an inherited member \<^verbatim>\<open>query\<close> is \<^verbatim>\<open>undefined\<close> and reading its \<^verbatim>\<open>value\<close>
  throws.\<close>

definition queryValueOrEmpty :: "Search \<Rightarrow> string \<Rightarrow> Error + string" where
  "queryValueOrEmpty searchInstances id' =
     (case getProperty searchInstances id' of
        Undefined \<Rightarrow> Inr []
      | Inherited \<Rightarrow> Inl TypeError
      | Own inst \<Rightarrow> Inr (case value (query inst) of
                          None \<Rightarrow> []
                        | Some v \<Rightarrow> (if v = [] then [] else v)))"

text \<open>The statement \<^verbatim>\<open>currentParams.set(id, searchInstances[id]?.query.value || '')\<close>
  of both operations.\<close>

definition setParamFromStore ::
  "Search \<Rightarrow> string \<Rightarrow> (string \<times> string) list \<Rightarrow> Error + (string \<times> string) list" where
  "setParamFromStore searchInstances id' currentParams =
     (case queryValueOrEmpty searchInstances id' of
        Inl e \<Rightarrow> Inl e
      | Inr v \<Rightarrow> Inr (URLSearchParams_set id' v currentParams))"

text \<open>The local \<^verbatim>\<open>currentParams\<close> of \<^verbatim>\<open>updateUrlParam\<close> at the moment of the push.\<close>

definition updateUrlParam_currentParams ::
  "Navigation \<Rightarrow> Search \<Rightarrow> string \<Rightarrow> Error + (string \<times> string) list" where
  "updateUrlParam_currentParams nav searchInstances id' =
     setParamFromStore searchInstances id' (Object_fromEntries (urlSearchParams nav))"

definition updateUrlParam :: "Navigation \<Rightarrow> Search \<Rightarrow> string \<Rightarrow> bool \<Rightarrow> Error + string list" where
  "updateUrlParam nav searchInstances id' sync =
     (if \<not> sync then Inr []
      else (case updateUrlParam_currentParams nav searchInstances id' of
              Inl e \<Rightarrow> Inl e
            | Inr currentParams \<Rightarrow> Inr [pathname nav @ ''?'' @ toString nav currentParams]))"

text \<open>The local \<^verbatim>\<open>currentParams\<close> of \<^verbatim>\<open>updateUrlParams\<close> after its \<^verbatim>\<open>forEach\<close>.\<close>

definition updateUrlParams_currentParams ::
  "Navigation \<Rightarrow> Search \<Rightarrow> Error + (string \<times> string) list" where
  "updateUrlParams_currentParams nav searchInstances =
     forEach (setParamFromStore searchInstances)
             (Object_keys searchInstances)
             (Object_fromEntries (urlSearchParams nav))"

definition updateUrlParams :: "Navigation \<Rightarrow> Search \<Rightarrow> Error + string list" where
  "updateUrlParams nav searchInstances =
     (case updateUrlParams_currentParams nav searchInstances of
        Inl e \<Rightarrow> Inl e
      | Inr currentParams \<Rightarrow> Inr [pathname nav @ ''?'' @ toString nav currentParams])"

text \<open>A serialisation for concrete examples: \<^verbatim>\<open>name=value\<close> pairs joined by
  \<^verbatim>\<open>&\<close>, which is what \<^verbatim>\<open>toString\<close> yields when no character needs escaping.\<close>

fun plainToString :: "(string \<times> string) list \<Rightarrow> string" where
  "plainToString [] = []"
| "plainToString [(k, v)] = k @ ''='' @ v"
| "plainToString ((k, v) # p # ps) = k @ ''='' @ v @ ''&'' @ plainToString (p # ps)"

section \<open>The search input component\<close>

text \<open>
  \<^verbatim>\<open>handleKeyDown\<close> of \<^verbatim>\<open>SearchComponent\<close>, for a key event with the given key and
  input text. It returns the store after the queued update, and the pushes made or
  the error thrown by the handler.
  The call in the source is \<^verbatim>\<open>updateUrlParam(id, hasUrlSync, searchValue)\<close>; the callee
  takes two parameters, so the third argument is discarded by the call. The callee
  reads the store of the render in which the handler was created, that is, the store
  before the queued update.
\<close>

definition handleKeyDown ::
  "Navigation \<Rightarrow> Search \<Rightarrow> string \<Rightarrow> bool \<Rightarrow> string \<Rightarrow> string
     \<Rightarrow> Search \<times> (Error + string list)" where
  "handleKeyDown nav searchInstances id' sync key targetValue =
     (if key = ''Enter'' then
        (let searchValue = targetValue in
           (updateSearchInstance id' \<lparr>value = Some searchValue\<rparr> searchInstances,
            if sync then updateUrlParam nav searchInstances id' sync else Inr []))
      else (searchInstances, Inr []))"

section \<open>The filter registry\<close>

definition addFilters :: "'a Filters \<Rightarrow> 'a Filters \<Rightarrow> 'a Filters" where
  "addFilters filters prev = spread prev filters"

definition updateFilters :: "'a Filters \<Rightarrow> 'a Filters \<Rightarrow> 'a Filters" where
  "updateFilters filters prev = spread prev filters"

text \<open>Deleting a property of the fresh copy cannot throw, so the \<^verbatim>\<open>catch\<close> branch of
  \<^verbatim>\<open>removeFilters\<close> is never taken.\<close>

definition removeFilters :: "string list \<Rightarrow> 'a Filters \<Rightarrow> 'a Filters" where
  "removeFilters filterIds prev = fold (\<lambda>k updated. AList.delete k updated) filterIds prev"

text \<open>\<^verbatim>\<open>hasFilters\<close> tests \<^verbatim>\<open>filters[id] !== undefined\<close> for every listed identifier.\<close>

definition hasFilters :: "'a Filters \<Rightarrow> string list \<Rightarrow> bool" where
  "hasFilters filters filterIds = list_all (\<lambda>k. getProperty filters k \<noteq> Undefined) filterIds"

text \<open>The loop body of \<^verbatim>\<open>resetFilters\<close>:
  \<^verbatim>\<open>if (updated[id]) { updated[id].value = null; }\<close>. On an inherited member the
  assignment lands on that member, an object outside the store, and the store keeps
  its own properties.\<close>

definition nullValue :: "'a FilterValue \<Rightarrow> 'a FilterValue" where
  "nullValue f = f\<lparr>fvalue := None\<rparr>"

definition resetValueAt :: "string \<Rightarrow> 'a Filters \<Rightarrow> 'a Filters" where
  "resetValueAt k updated =
     (case getProperty updated k of
        Undefined \<Rightarrow> updated
      | Own f \<Rightarrow> AList.update k (nullValue f) updated
      | Inherited \<Rightarrow> updated)"

definition resetFilters :: "string list \<Rightarrow> 'a Filters \<Rightarrow> 'a Filters" where
  "resetFilters filterIds prev = fold resetValueAt filterIds prev"

text \<open>\<^verbatim>\<open>resetAllFilters\<close> is \<^verbatim>\<open>setFilters({})\<close>.\<close>

definition resetAllFilters :: "'a Filters \<Rightarrow> 'a Filters" where
  "resetAllFilters prev = []"

section \<open>Contexts and accessor hooks\<close>

text \<open>
  A context value is either \<^verbatim>\<open>undefined\<close> (\<open>None\<close>) or an API object. The source builds
  two API objects for the search context: the constant \<^verbatim>\<open>defaultValues\<close>, whose
  operations do nothing, and the object assembled by \<^verbatim>\<open>SearchProvider\<close> from its
  router and its current store. The filter context has only the provider's object.
\<close>

datatype SearchContextValue =
  defaultValues
| SearchProvider_value Navigation Search

datatype 'a FilterContextValue =
  FilterProvider_value "'a Filters"

text \<open>\<^verbatim>\<open>createContext(d)\<close> fixes the value \<open>d\<close> that \<^verbatim>\<open>useContext\<close> yields when no provider
  encloses the caller; otherwise \<^verbatim>\<open>useContext\<close> yields the value of the nearest
  provider.\<close>

definition SearchContext :: "SearchContextValue option" where
  "SearchContext = Some defaultValues"

definition FilterContext :: "'a FilterContextValue option" where
  "FilterContext = None"

definition useContext :: "'v \<Rightarrow> 'v option \<Rightarrow> 'v" where
  "useContext created provider = (case provider of None \<Rightarrow> created | Some v \<Rightarrow> v)"

definition useSearchContext :: "SearchContextValue option option \<Rightarrow> Error + SearchContextValue" where
  "useSearchContext provider =
     (case useContext SearchContext provider of
        None \<Rightarrow> Inl (Error ''useSearchContext must be used within a SearchProvider'')
      | Some context \<Rightarrow> Inr context)"

definition useFilter :: "'a FilterContextValue option option \<Rightarrow> Error + 'a FilterContextValue" where
  "useFilter provider =
     (case useContext FilterContext provider of
        None \<Rightarrow> Inl (Error ''useFilter must be used within a FilterProvider'')
      | Some context \<Rightarrow> Inr context)"

section \<open>Auxiliary facts about objects\<close>

lemma map_of_spread:
  "wf_object source \<Longrightarrow> map_of (spread target source) = map_of target ++ map_of source"
proof (induction source arbitrary: target)
  case Nil
  then show ?case by (simp add: spread_def)
next
  case (Cons p source)
  obtain k v where p: "p = (k, v)" by (cases p)
  from Cons.prems have wf: "wf_object source" and fresh: "map_of source k = None"
    by (auto simp: wf_object_def p map_of_eq_None_iff)
  have "map_of (spread target (p # source)) = map_of (spread (AList.update k v target) source)"
    by (simp add: spread_def p)
  also have "\<dots> = map_of (AList.update k v target) ++ map_of source"
    by (rule Cons.IH [OF wf])
  also have "\<dots> = map_of target ++ map_of (p # source)"
    using fresh by (auto simp: p update_conv' map_add_def fun_eq_iff split: option.splits)
  finally show ?case .
qed

lemma keys_spread:
  "set (Object_keys (spread target source)) = set (Object_keys target) \<union> set (Object_keys source)"
proof (induction source arbitrary: target)
  case Nil
  then show ?case by (simp add: spread_def Object_keys_def)
next
  case (Cons p source)
  have "spread target (p # source) = spread (AList.update (fst p) (snd p) target) source"
    by (simp add: spread_def split_beta)
  then show ?case
    using Cons.IH [of "AList.update (fst p) (snd p) target"] dom_update [of "fst p" "snd p" target]
    by (auto simp: Object_keys_def)
qed

lemma wf_spread: "wf_object target \<Longrightarrow> wf_object (spread target source)"
proof (induction source arbitrary: target)
  case Nil
  then show ?case by (simp add: spread_def)
next
  case (Cons p source)
  have "spread target (p # source) = spread (AList.update (fst p) (snd p) target) source"
    by (simp add: spread_def split_beta)
  then show ?case
    using Cons.IH [of "AList.update (fst p) (snd p) target"] Cons.prems
    by (simp add: wf_object_def distinct_update)
qed

lemma map_of_fold_delete:
  "map_of (fold (\<lambda>k updated. AList.delete k updated) ks obj) = map_of obj |` (- set ks)"
proof (induction ks arbitrary: obj)
  case Nil
  then show ?case by simp
next
  case (Cons k ks)
  show ?case
    by (auto simp: Cons.IH delete_conv' restrict_map_def fun_eq_iff)
qed

lemma fold_delete_filter:
  "fold (\<lambda>k updated. AList.delete k updated) ks obj = filter (\<lambda>p. fst p \<notin> set ks) obj"
proof (induction ks arbitrary: obj)
  case Nil
  then show ?case by simp
next
  case (Cons k ks)
  have "AList.delete k obj = filter (\<lambda>p. fst p \<noteq> k) obj"
    by (auto simp: AList.delete_eq intro!: filter_cong)
  then show ?case
    by (auto simp: Cons.IH intro!: filter_cong)
qed

lemma length_filter_keys:
  assumes "distinct (map fst obj)"
  shows "length (filter (\<lambda>p. fst p \<notin> A) obj) = length obj - card (A \<inter> set (map fst obj))"
proof -
  have "length (filter (\<lambda>p. fst p \<notin> A) obj) = length (filter (\<lambda>k. k \<notin> A) (map fst obj))"
    by (simp add: filter_map comp_def)
  also have "\<dots> = card (set (filter (\<lambda>k. k \<notin> A) (map fst obj)))"
    using assms by (simp add: distinct_card distinct_filter del: set_filter)
  also have "\<dots> = card (set (map fst obj) - A)"
    by (rule arg_cong [where f = card]) auto
  also have "\<dots> = card (set (map fst obj)) - card (A \<inter> set (map fst obj))"
    by (simp add: card_Diff_subset_Int Int_commute)
  also have "card (set (map fst obj)) = length obj"
    using assms by (simp add: distinct_card del: set_map)
  finally show ?thesis .
qed

section \<open>Auxiliary facts about the operations\<close>

lemma getProperty_own: "map_of obj k = Some v \<Longrightarrow> getProperty obj k = Own v"
  by (simp add: getProperty_def)

lemma getProperty_plain:
  "map_of obj k = None \<Longrightarrow> k \<notin> set Object_prototype_names \<Longrightarrow> getProperty obj k = Undefined"
  by (simp add: getProperty_def)

lemma getProperty_inherited:
  "map_of obj k = None \<Longrightarrow> k \<in> set Object_prototype_names \<Longrightarrow> getProperty obj k = Inherited"
  by (simp add: getProperty_def)

lemma own_key_entry: "k \<in> set (Object_keys obj) \<Longrightarrow> \<exists>v. map_of obj k = Some v"
  by (cases "map_of obj k") (simp_all add: Object_keys_def map_of_eq_None_iff)

lemma entry_own_key: "map_of obj k = Some v \<Longrightarrow> k \<in> set (Object_keys obj)"
  by (auto simp: Object_keys_def dest: map_of_SomeD intro: rev_image_eqI)

lemma nullQuery_idem: "nullQuery (nullQuery inst) = nullQuery inst"
  by (simp add: nullQuery_def)

lemma nullQuery_value: "value (query (nullQuery inst)) = None"
  by (simp add: nullQuery_def)

lemma keys_update_present:
  "map_of obj k = Some v \<Longrightarrow> map fst (AList.update k v' obj) = map fst obj"
  by (induction obj) (auto split: if_splits)

lemma resetQueryAt_own:
  "map_of s k = Some inst \<Longrightarrow> resetQueryAt k s = Inr (AList.update k (nullQuery inst) s)"
  by (simp add: resetQueryAt_def getProperty_own)

lemma keys_resetQueryAt: "resetQueryAt k s = Inr s' \<Longrightarrow> Object_keys s' = Object_keys s"
  by (auto simp: resetQueryAt_def getProperty_def Object_keys_def keys_update_present
           split: option.splits if_splits)

lemma keys_forEach_resetQueryAt:
  "forEach resetQueryAt ks s = Inr s' \<Longrightarrow> Object_keys s' = Object_keys s"
proof (induction ks arbitrary: s)
  case Nil
  then show ?case by simp
next
  case (Cons k ks)
  from Cons.prems obtain s1 where step: "resetQueryAt k s = Inr s1"
    and rest: "forEach resetQueryAt ks s1 = Inr s'"
    by (auto split: sum.splits)
  from Cons.IH [OF rest] keys_resetQueryAt [OF step] show ?case
    by simp
qed

text \<open>Over own keys of the store the reset loop does not throw.\<close>

lemma forEach_resetQueryAt_own:
  "set ks \<subseteq> set (Object_keys s) \<Longrightarrow>
   \<exists>s'. forEach resetQueryAt ks s = Inr s' \<and>
        Object_keys s' = Object_keys s \<and>
        (\<forall>x. map_of s' x =
              (if x \<in> set ks then map_option nullQuery (map_of s x) else map_of s x))"
proof (induction ks arbitrary: s)
  case Nil
  then show ?case by simp
next
  case (Cons k ks)
  from Cons.prems have "k \<in> set (Object_keys s)"
    by simp
  then obtain inst where inst: "map_of s k = Some inst"
    using own_key_entry by blast
  let ?s1 = "AList.update k (nullQuery inst) s"
  have step: "resetQueryAt k s = Inr ?s1"
    using inst by (rule resetQueryAt_own)
  have keys1: "Object_keys ?s1 = Object_keys s"
    using inst by (simp add: Object_keys_def keys_update_present)
  with Cons.prems have "set ks \<subseteq> set (Object_keys ?s1)"
    by simp
  from Cons.IH [OF this] obtain s' where run: "forEach resetQueryAt ks ?s1 = Inr s'"
    and keys: "Object_keys s' = Object_keys ?s1"
    and look: "\<And>x. map_of s' x =
              (if x \<in> set ks then map_option nullQuery (map_of ?s1 x) else map_of ?s1 x)"
    by blast
  have "forEach resetQueryAt (k # ks) s = Inr s'"
    by (simp add: step run)
  moreover have "Object_keys s' = Object_keys s"
    by (simp add: keys keys1)
  moreover have "map_of s' x =
      (if x \<in> set (k # ks) then map_option nullQuery (map_of s x) else map_of s x)" for x
    by (simp add: look update_conv' inst nullQuery_idem)
  ultimately show ?case
    by blast
qed

lemma keys_resetValueAt: "Object_keys (resetValueAt k s) = Object_keys s"
  by (simp add: resetValueAt_def getProperty_def Object_keys_def keys_update_present
           split: option.splits)

lemma map_of_resetValueAt:
  "map_of (resetValueAt k s) x = (if x = k then map_option nullValue (map_of s x) else map_of s x)"
  by (simp add: resetValueAt_def getProperty_def update_conv' split: option.splits)

lemma map_of_filter_other:
  "x \<noteq> k \<Longrightarrow> map_of (filter (\<lambda>q. fst q \<noteq> k) ps) x = map_of ps x"
  by (induction ps) auto

lemma map_of_URLSearchParams_set:
  "map_of (URLSearchParams_set k v ps) = (map_of ps)(k \<mapsto> v)"
  by (induction ps) (auto simp: fun_eq_iff map_of_filter_other)

lemma queryValueOrEmpty_present:
  "map_of s k = Some inst \<Longrightarrow>
   queryValueOrEmpty s k = Inr (case value (query inst) of None \<Rightarrow> [] | Some v \<Rightarrow> v)"
  by (simp add: queryValueOrEmpty_def getProperty_own split: option.splits)

text \<open>Over own keys of the store the loop of \<open>updateUrlParams\<close> does not throw.\<close>

lemma forEach_setParamFromStore_own:
  "set ks \<subseteq> set (Object_keys s) \<Longrightarrow>
   \<exists>params. forEach (setParamFromStore s) ks ps = Inr params \<and>
        (\<forall>x. map_of params x =
              (if x \<in> set ks
               then map_option (\<lambda>inst. case value (query inst) of None \<Rightarrow> [] | Some v \<Rightarrow> v)
                      (map_of s x)
               else map_of ps x))"
proof (induction ks arbitrary: ps)
  case Nil
  then show ?case by simp
next
  case (Cons k ks)
  from Cons.prems have "k \<in> set (Object_keys s)" and sub: "set ks \<subseteq> set (Object_keys s)"
    by simp_all
  then obtain inst where inst: "map_of s k = Some inst"
    using own_key_entry by blast
  let ?v = "case value (query inst) of None \<Rightarrow> [] | Some v \<Rightarrow> v"
  let ?ps1 = "URLSearchParams_set k ?v ps"
  have step: "setParamFromStore s k ps = Inr ?ps1"
    by (simp add: setParamFromStore_def queryValueOrEmpty_present [OF inst])
  from Cons.IH [OF sub, of ?ps1] obtain params
    where run: "forEach (setParamFromStore s) ks ?ps1 = Inr params"
    and look: "\<And>x. map_of params x =
              (if x \<in> set ks
               then map_option (\<lambda>inst. case value (query inst) of None \<Rightarrow> [] | Some v \<Rightarrow> v)
                      (map_of s x)
               else map_of ?ps1 x)"
    by blast
  have "forEach (setParamFromStore s) (k # ks) ps = Inr params"
    by (simp add: step run)
  moreover have "map_of params x =
              (if x \<in> set (k # ks)
               then map_option (\<lambda>inst. case value (query inst) of None \<Rightarrow> [] | Some v \<Rightarrow> v)
                      (map_of s x)
               else map_of ps x)" for x
    by (simp add: look map_of_URLSearchParams_set inst)
  ultimately show ?case
    by blast
qed

lemma getSearchInstance_own:
  "map_of s k = Some inst \<Longrightarrow>
   getSearchInstance s k = Some \<lparr>found_query = Some (query inst), found_hasUrlSync = hasUrlSync inst\<rparr>"
  by (simp add: getSearchInstance_def getProperty_own)

lemma getSearchInstance_plain:
  "map_of s k = None \<Longrightarrow> k \<notin> set Object_prototype_names \<Longrightarrow> getSearchInstance s k = None"
  by (simp add: getSearchInstance_def getProperty_plain)

lemma getSearchInstance_inherited:
  "map_of s k = None \<Longrightarrow> k \<in> set Object_prototype_names \<Longrightarrow>
   getSearchInstance s k = Some \<lparr>found_query = None, found_hasUrlSync = None\<rparr>"
  by (simp add: getSearchInstance_def getProperty_inherited)

lemma assignProperty_plain:
  "k \<notin> set Object_prototype_names \<Longrightarrow> assignProperty k v obj = AList.update k v obj"
  by (auto simp: assignProperty_def Object_prototype_names_def)

lemma map_of_getSearchInstances_callback:
  "i \<notin> set Object_prototype_names \<Longrightarrow>
   map_of (getSearchInstances_callback s i acc) k =
     (if k = i \<and> map_of s k \<noteq> None
      then map_option (\<lambda>inst. \<lparr>found_query = Some (query inst), found_hasUrlSync = hasUrlSync inst\<rparr>)
             (map_of s k)
      else map_of acc k)"
  by (cases "map_of s i")
     (auto simp: getSearchInstances_callback_def getSearchInstance_own getSearchInstance_plain
                 assignProperty_plain update_conv')

lemma map_of_getSearchInstances_fold:
  "set ids \<inter> set Object_prototype_names = {} \<Longrightarrow>
   map_of (fold (getSearchInstances_callback s) ids acc) k =
     (if k \<in> set ids \<and> map_of s k \<noteq> None
      then map_option (\<lambda>inst. \<lparr>found_query = Some (query inst), found_hasUrlSync = hasUrlSync inst\<rparr>)
             (map_of s k)
      else map_of acc k)"
proof (induction ids arbitrary: acc)
  case Nil
  then show ?case by simp
next
  case (Cons i ids)
  from Cons.prems have i: "i \<notin> set Object_prototype_names"
    and rest: "set ids \<inter> set Object_prototype_names = {}"
    by auto
  show ?case
    by (auto simp: Cons.IH [OF rest] map_of_getSearchInstances_callback [OF i])
qed

lemma getSearchInstances_fold_none:
  "set ids \<inter> set Object_prototype_names = {} \<Longrightarrow> \<forall>k\<in>set ids. map_of s k = None \<Longrightarrow>
   fold (getSearchInstances_callback s) ids acc = acc"
  by (induction ids arbitrary: acc)
     (simp_all add: getSearchInstances_callback_def getSearchInstance_plain)

text \<open>For requested identifiers that are not names of inherited members,
  \<open>getSearchInstances\<close> returns an object whose keys are requested identifiers holding
  the copy of the stored entry, and the empty object when none of them is stored.\<close>

lemma getSearchInstances_plain_ids:
  assumes "set ids \<inter> set Object_prototype_names = {}"
  shows "\<exists>found. getSearchInstances s ids = Some found \<and>
      (\<forall>k v. map_of found k = Some v \<longrightarrow>
         k \<in> set ids \<and>
         (\<exists>inst. map_of s k = Some inst \<and>
            v = \<lparr>found_query = Some (query inst), found_hasUrlSync = hasUrlSync inst\<rparr>)) \<and>
      ((\<forall>k\<in>set ids. map_of s k = None) \<longrightarrow> found = [])"
proof -
  let ?found = "fold (getSearchInstances_callback s) ids []"
  have result: "getSearchInstances s ids = Some ?found"
    by (simp add: getSearchInstances_def)
  have entries: "k \<in> set ids \<and>
         (\<exists>inst. map_of s k = Some inst \<and>
            v = \<lparr>found_query = Some (query inst), found_hasUrlSync = hasUrlSync inst\<rparr>)"
    if "map_of ?found k = Some v" for k v
    using that by (auto simp: map_of_getSearchInstances_fold [OF assms] split: if_splits)
  have none: "?found = []" if "\<forall>k\<in>set ids. map_of s k = None"
    using assms that by (rule getSearchInstances_fold_none)
  from result entries none show ?thesis
    by blast
qed

lemma resetSearchInstance_at:
  "map_of (resetSearchInstance id' prev) id' = Some \<lparr>query = \<lparr>value = None\<rparr>, hasUrlSync = None\<rparr>"
  by (simp add: resetSearchInstance_def update_conv')

lemma resetFilters_singleton:
  "Object_keys (resetFilters [id'] prev) = Object_keys prev \<and>
   map_of (resetFilters [id'] prev) k =
     (if k = id' then map_option nullValue (map_of prev k) else map_of prev k)"
  by (simp add: resetFilters_def keys_resetValueAt map_of_resetValueAt)

lemma resetFilters_singleton_absent:
  "map_of prev id' = None \<Longrightarrow> resetFilters [id'] prev = prev"
  by (simp add: resetFilters_def resetValueAt_def getProperty_def)

lemma resetSearchInstances_singleton_absent:
  "map_of prev id' = None \<Longrightarrow> id' \<notin> set Object_prototype_names \<Longrightarrow>
   resetSearchInstances [(id', inst)] prev = Inr prev"
  by (simp add: resetSearchInstances_def resetQueryAt_def Object_keys_def getProperty_plain)

lemma updateUrlParam_disabled: "updateUrlParam nav s id' False = Inr []"
  by (simp add: updateUrlParam_def)

lemma updateUrlParam_enabled:
  assumes "getProperty s id' \<noteq> Inherited"
  shows "\<exists>v currentParams.
     queryValueOrEmpty s id' = Inr v \<and>
     updateUrlParam_currentParams nav s id' = Inr currentParams \<and>
     updateUrlParam nav s id' True = Inr [pathname nav @ ''?'' @ toString nav currentParams] \<and>
     URLSearchParams_get currentParams id' = Some v"
  using assms
  by (cases "getProperty s id'")
     (simp_all add: updateUrlParam_def updateUrlParam_currentParams_def setParamFromStore_def
        queryValueOrEmpty_def URLSearchParams_get_def map_of_URLSearchParams_set)

lemma updateUrlParam_inherited:
  "getProperty s id' = Inherited \<Longrightarrow> updateUrlParam nav s id' True = Inl TypeError"
  by (simp add: updateUrlParam_def updateUrlParam_currentParams_def setParamFromStore_def
        queryValueOrEmpty_def)

lemma wf_fold_delete:
  "wf_object obj \<Longrightarrow> wf_object (fold (\<lambda>k updated. AList.delete k updated) ks obj)"
  by (simp add: wf_object_def fold_delete_filter distinct_map_filter)

lemma wf_update: "wf_object obj \<Longrightarrow> wf_object (AList.update k v obj)"
  by (simp add: wf_object_def distinct_update)

lemma wf_resetValueAt: "wf_object s \<Longrightarrow> wf_object (resetValueAt k s)"
  by (simp add: wf_object_def keys_resetValueAt [unfolded Object_keys_def])

text \<open>Every mutator keeps the keys of the store pairwise distinct.\<close>

lemma wf_search_operations:
  assumes "wf_object prev"
  shows "wf_object (addSearchInstance id' q sync prev)"
    and "wf_object (addSearchInstances instances prev)"
    and "wf_object (updateSearchInstance id' q prev)"
    and "wf_object (updateSearchInstances instances prev)"
    and "wf_object (removeSearchInstance id' prev)"
    and "wf_object (removeSearchInstances instances prev)"
    and "wf_object (removeAllSearchInstances prev)"
    and "wf_object (resetSearchInstance id' prev)"
  using assms
  by (simp_all add: addSearchInstance_def addSearchInstances_def updateSearchInstance_def
        updateSearchInstances_def removeSearchInstance_def removeSearchInstances_def
        removeAllSearchInstances_def resetSearchInstance_def wf_update wf_spread wf_fold_delete
        wf_object_def [of "AList.delete id' prev"] wf_object_def [of "[]"]
        distinct_delete wf_object_def [of prev, symmetric])

lemma wf_search_resets:
  assumes "wf_object prev"
  shows "resetSearchInstances instances prev = Inr s' \<Longrightarrow> wf_object s'"
    and "resetAllSearchInstances prev = Inr s' \<Longrightarrow> wf_object s'"
  using assms keys_forEach_resetQueryAt [of _ prev s']
  by (auto simp: resetSearchInstances_def resetAllSearchInstances_def wf_object_def
        Object_keys_def)

lemma wf_filter_operations:
  assumes "wf_object prev"
  shows "wf_object (addFilters filters prev)"
    and "wf_object (updateFilters filters prev)"
    and "wf_object (removeFilters filterIds prev)"
    and "wf_object (resetFilters filterIds prev)"
    and "wf_object (resetAllFilters prev)"
proof -
  have "map fst (fold resetValueAt ks prev) = map fst prev" for ks
    by (induction ks arbitrary: prev) (simp_all add: keys_resetValueAt [unfolded Object_keys_def])
  then show "wf_object (resetFilters filterIds prev)"
    using assms by (simp add: resetFilters_def wf_object_def)
qed (use assms in \<open>simp_all add: addFilters_def updateFilters_def removeFilters_def
       resetAllFilters_def wf_spread wf_fold_delete wf_object_def [of "[]"]\<close>)

text \<open>What the operations do at the name of an inherited member that the store does not
  hold.\<close>

lemma inherited_name_reads:
  "hasSearchInstance [] ''constructor''"
  "hasFilters [] [''constructor'']"
  "prevSyncOrFalse [] ''constructor'' = False"
  "queryValueOrEmpty [] ''constructor'' = Inl TypeError"
  by (simp_all add: hasSearchInstance_def hasProperty_def hasFilters_def prevSyncOrFalse_def
        queryValueOrEmpty_def getProperty_def Object_prototype_names_def)

lemma inherited_name_resets:
  "resetSearchInstances [(''constructor'', inst)] [] = Inl TypeError"
  "resetFilters [''constructor''] [] = []"
  by (simp_all add: resetSearchInstances_def resetQueryAt_def resetFilters_def resetValueAt_def
        Object_keys_def getProperty_def Object_prototype_names_def)

lemma getSearchInstances_proto_name:
  "getSearchInstances [] [''__proto__''] = Some []"
  by (simp add: getSearchInstances_def getSearchInstances_callback_def getSearchInstance_def
        getProperty_def assignProperty_def Object_prototype_names_def)

section \<open>The accessor hooks outside a provider\<close>

text \<open>
  C1. Outside every provider (\<open>provider = None\<close>) \<open>useContext\<close> yields the value the
  context was created with. The filter context was created with \<^verbatim>\<open>undefined\<close>, so
  \<open>useFilter\<close> throws its fixed message. The search context was created with
  \<open>defaultValues\<close>, an object, so the test \<^verbatim>\<open>!context\<close> fails and \<open>useSearchContext\<close>
  returns \<open>defaultValues\<close> instead of throwing.
\<close>

theorem useSearchContext_outside_provider:
  "useSearchContext None = Inr defaultValues \<and>
   (useFilter None :: Error + 'a FilterContextValue)
     = Inl (Error ''useFilter must be used within a FilterProvider'')"
  by (simp add: useSearchContext_def useFilter_def useContext_def SearchContext_def
                FilterContext_def)

section \<open>Resetting\<close>

text \<open>
  C2. On the empty store, where \<open>''q''\<close> is not a key, \<open>resetSearchInstance ''q''\<close>
  creates the key \<open>''q''\<close> with a \<^verbatim>\<open>null\<close> query: it is not a no-op on a missing
  identifier. (\<open>resetFilters\<close> and \<open>resetSearchInstances\<close> on such an identifier leave
  the store as it is: \<open>resetFilters_singleton_absent\<close>,
  \<open>resetSearchInstances_singleton_absent\<close>.)
\<close>

theorem resetSearchInstance_creates_key:
  "\<not> hasSearchInstance [] ''q'' \<and>
   resetSearchInstance ''q'' [] = [(''q'', \<lparr>query = \<lparr>value = None\<rparr>, hasUrlSync = None\<rparr>)] \<and>
   hasSearchInstance (resetSearchInstance ''q'' []) ''q''"
  by (simp add: hasSearchInstance_def hasProperty_def resetSearchInstance_def Object_keys_def
                Object_prototype_names_def)

text \<open>
  C3, as stated, fails for the filter registry: \<open>resetAllFilters\<close> on a store holding
  the key \<open>''status''\<close> returns a store without that key.
\<close>

theorem resetAllFilters_drops_keys:
  "set (Object_keys (resetAllFilters
          [(''status'', \<lparr>fvalue = Some ''active'', category = Some ''status''\<rparr>)]))
   \<noteq> set (Object_keys [(''status'', \<lparr>fvalue = Some ''active'', category = Some ''status''\<rparr>)])"
  by (simp add: resetAllFilters_def Object_keys_def)

text \<open>
  C3, amended. \<open>resetAllSearchInstances\<close> does not throw; it keeps the keys of the store,
  in their order (so the size is unchanged), replaces every entry by the same entry
  with a \<^verbatim>\<open>null\<close> query value, and so every entry of the result has the query value
  \<^verbatim>\<open>null\<close>; \<open>resetAllFilters\<close> returns the empty store.
\<close>

theorem resetAll_effect:
  "(\<exists>s'. resetAllSearchInstances s = Inr s' \<and>
      Object_keys s' = Object_keys s \<and>
      length (Object_keys s') = length (Object_keys s) \<and>
      (\<forall>k. map_of s' k = map_option nullQuery (map_of s k)) \<and>
      (\<forall>k inst. map_of s' k = Some inst \<longrightarrow> value (query inst) = None)) \<and>
   resetAllFilters f = []"
proof -
  from forEach_resetQueryAt_own [of "Object_keys s" s]
  obtain s' where run: "resetAllSearchInstances s = Inr s'"
    and keys: "Object_keys s' = Object_keys s"
    and loop: "\<And>x. map_of s' x =
        (if x \<in> set (Object_keys s) then map_option nullQuery (map_of s x) else map_of s x)"
    by (auto simp: resetAllSearchInstances_def)
  have look: "map_of s' k = map_option nullQuery (map_of s k)" for k
  proof (cases "k \<in> set (Object_keys s)")
    case True
    then show ?thesis
      by (simp add: loop)
  next
    case False
    then have "map_of s k = None"
      by (simp add: Object_keys_def map_of_eq_None_iff)
    then show ?thesis
      by (simp add: loop)
  qed
  have null: "value (query inst) = None" if "map_of s' k = Some inst" for k inst
    using that by (auto simp: look nullQuery_value)
  have size: "length (Object_keys s') = length (Object_keys s)"
    by (simp only: keys)
  have empty: "resetAllFilters f = []"
    by (simp add: resetAllFilters_def)
  from run keys size look null have
    "\<exists>s'. resetAllSearchInstances s = Inr s' \<and>
      Object_keys s' = Object_keys s \<and>
      length (Object_keys s') = length (Object_keys s) \<and>
      (\<forall>k. map_of s' k = map_option nullQuery (map_of s k)) \<and>
      (\<forall>k inst. map_of s' k = Some inst \<longrightarrow> value (query inst) = None)"
    by blast
  with empty show ?thesis
    by (intro conjI)
qed

theorem resetAll_effect_witness:
  "resetAllSearchInstances
     [(''a'', \<lparr>query = \<lparr>value = Some ''x''\<rparr>, hasUrlSync = Some True\<rparr>),
      (''b'', \<lparr>query = \<lparr>value = None\<rparr>, hasUrlSync = None\<rparr>)]
     = Inr [(''a'', \<lparr>query = \<lparr>value = None\<rparr>, hasUrlSync = Some True\<rparr>),
            (''b'', \<lparr>query = \<lparr>value = None\<rparr>, hasUrlSync = None\<rparr>)] \<and>
   map_of [(''a'', \<lparr>query = \<lparr>value = None\<rparr>, hasUrlSync = Some True\<rparr>),
           (''b'', \<lparr>query = \<lparr>value = None\<rparr>, hasUrlSync = None\<rparr>)] ''a''
     = Some \<lparr>query = \<lparr>value = None\<rparr>, hasUrlSync = Some True\<rparr> \<and>
   value (query \<lparr>query = \<lparr>value = None\<rparr>, hasUrlSync = Some True\<rparr>) = None"
proof -
  let ?s = "[(''a'', \<lparr>query = \<lparr>value = Some ''x''\<rparr>, hasUrlSync = Some True\<rparr>),
             (''b'', \<lparr>query = \<lparr>value = None\<rparr>, hasUrlSync = None\<rparr>)]"
  let ?r = "[(''a'', \<lparr>query = \<lparr>value = None\<rparr>, hasUrlSync = Some True\<rparr>),
             (''b'', \<lparr>query = \<lparr>value = None\<rparr>, hasUrlSync = None\<rparr>)]"
  let ?inst = "\<lparr>query = \<lparr>value = None\<rparr>, hasUrlSync = Some True\<rparr>"
  have run: "resetAllSearchInstances ?s = Inr ?r"
    by (simp add: resetAllSearchInstances_def Object_keys_def resetQueryAt_def getProperty_def
                  nullQuery_def)
  have found: "map_of ?r ''a'' = Some ?inst"
    by simp
  from resetAll_effect [of ?s "[] :: unit Filters", THEN conjunct1]
  obtain s' where "resetAllSearchInstances ?s = Inr s'"
    and nulls: "\<And>k inst. map_of s' k = Some inst \<Longrightarrow> value (query inst) = None"
    by blast
  with run have "s' = ?r"
    by simp
  with nulls [of "''a''" ?inst] found have "value (query ?inst) = None"
    by simp
  with run found show ?thesis
    by (intro conjI)
qed

section \<open>Adding and reading\<close>

text \<open>
  C9. After \<open>addSearchInstance id q sync\<close>, \<open>getSearchInstance\<close> at \<open>id\<close> returns exactly
  the record holding the supplied query and the supplied sync flag, whether or not
  \<open>id\<close> was present before.
\<close>

theorem add_get_roundtrip:
  "getSearchInstance (addSearchInstance id' q sync prev) id'
     = Some \<lparr>found_query = Some q, found_hasUrlSync = Some sync\<rparr>"
  by (simp add: getSearchInstance_def getProperty_def addSearchInstance_def update_conv')

text \<open>
  C10. On the empty store, with \<open>''constructor''\<close> requested, the read
  \<^verbatim>\<open>searchInstances[id]\<close> finds the inherited member, so \<open>getSearchInstance\<close> returns
  an object without query and flag instead of \<^verbatim>\<open>undefined\<close>, and \<open>getSearchInstances\<close>
  returns an object with the key \<open>''constructor''\<close>: not the empty object, and with
  an entry under a key the store does not have. (For requested identifiers that name
  no inherited member the result is as claimed: \<open>getSearchInstances_plain_ids\<close>.)
\<close>

theorem getSearchInstances_inherited_name:
  "map_of ([] :: Search) ''constructor'' = None \<and>
   getSearchInstance [] ''constructor'' = Some \<lparr>found_query = None, found_hasUrlSync = None\<rparr> \<and>
   getSearchInstances [] [''constructor'']
     = Some [(''constructor'', \<lparr>found_query = None, found_hasUrlSync = None\<rparr>)]"
  by (simp add: getSearchInstances_def getSearchInstances_callback_def getSearchInstance_def
                getProperty_def assignProperty_def Object_prototype_names_def)

section \<open>Updating one entry\<close>

text \<open>
  C5, as stated, fails where the entry is present without a \<^verbatim>\<open>hasUrlSync\<close> field (as
  \<open>resetSearchInstance\<close> leaves it): after \<open>updateSearchInstance\<close> the flag is
  \<^verbatim>\<open>false\<close>, not the missing flag it was before.
\<close>

theorem updateSearchInstance_unset_flag:
  "map_option hasUrlSync
     (map_of (updateSearchInstance ''q'' \<lparr>value = Some ''x''\<rparr>
                [(''q'', \<lparr>query = \<lparr>value = None\<rparr>, hasUrlSync = None\<rparr>)]) ''q'')
   \<noteq> map_option hasUrlSync
     (map_of [(''q'', \<lparr>query = \<lparr>value = None\<rparr>, hasUrlSync = None\<rparr>)] ''q'')"
  by (simp add: updateSearchInstance_def prevSyncOrFalse_def getProperty_def)

text \<open>
  C5, amended. After \<open>updateSearchInstance id q\<close> the entry at \<open>id\<close> exists and its
  query is exactly \<open>q\<close>. Its flag is the previous flag when the entry was present with
  a flag set, and \<^verbatim>\<open>false\<close> when the entry was present without a flag or was not
  present. Every other key keeps its entry.
\<close>

theorem updateSearchInstance_effect:
  "\<exists>inst. map_of (updateSearchInstance id' q s) id' = Some inst \<and>
      query inst = q \<and>
      (\<forall>old b. map_of s id' = Some old \<and> hasUrlSync old = Some b \<longrightarrow> hasUrlSync inst = Some b) \<and>
      (\<forall>old. map_of s id' = Some old \<and> hasUrlSync old = None \<longrightarrow> hasUrlSync inst = Some False) \<and>
      (map_of s id' = None \<longrightarrow> hasUrlSync inst = Some False) \<and>
      (\<forall>k. k \<noteq> id' \<longrightarrow> map_of (updateSearchInstance id' q s) k = map_of s k)"
  by (auto simp: updateSearchInstance_def prevSyncOrFalse_def getProperty_def update_conv'
           split: option.splits)

theorem updateSearchInstance_effect_witness:
  "map_of [(''a'', \<lparr>query = \<lparr>value = Some ''x''\<rparr>, hasUrlSync = Some True\<rparr>),
           (''b'', \<lparr>query = \<lparr>value = None\<rparr>, hasUrlSync = None\<rparr>)] ''a''
     = Some \<lparr>query = \<lparr>value = Some ''x''\<rparr>, hasUrlSync = Some True\<rparr> \<and>
   hasUrlSync \<lparr>query = \<lparr>value = Some ''x''\<rparr>, hasUrlSync = Some True\<rparr> = Some True \<and>
   ''b'' \<noteq> ''a'' \<and>
   updateSearchInstance ''a'' \<lparr>value = Some ''y''\<rparr>
     [(''a'', \<lparr>query = \<lparr>value = Some ''x''\<rparr>, hasUrlSync = Some True\<rparr>),
      (''b'', \<lparr>query = \<lparr>value = None\<rparr>, hasUrlSync = None\<rparr>)]
   = [(''a'', \<lparr>query = \<lparr>value = Some ''y''\<rparr>, hasUrlSync = Some True\<rparr>),
      (''b'', \<lparr>query = \<lparr>value = None\<rparr>, hasUrlSync = None\<rparr>)]"
  using updateSearchInstance_effect [of "''a''" "\<lparr>value = Some ''y''\<rparr>"
     "[(''a'', \<lparr>query = \<lparr>value = Some ''x''\<rparr>, hasUrlSync = Some True\<rparr>),
       (''b'', \<lparr>query = \<lparr>value = None\<rparr>, hasUrlSync = None\<rparr>)]"]
  by (simp add: updateSearchInstance_def prevSyncOrFalse_def getProperty_def)

section \<open>Bulk add and bulk update\<close>

text \<open>
  C8. \<open>addFilters\<close> and \<open>updateFilters\<close> give the same store on every input, and so do
  \<open>addSearchInstances\<close> and \<open>updateSearchInstances\<close>. Each is a merge at the top level:
  the result maps an identifier of the supplied object to the supplied entry as a whole,
  and any other identifier to its previous entry.
\<close>

theorem bulk_add_update_equal:
  "addFilters filters prev = updateFilters filters prev \<and>
   addSearchInstances instances s = updateSearchInstances instances s \<and>
   (wf_object filters \<longrightarrow> map_of (addFilters filters prev) = map_of prev ++ map_of filters) \<and>
   (wf_object instances \<longrightarrow> map_of (addSearchInstances instances s) = map_of s ++ map_of instances)"
  by (simp add: addFilters_def updateFilters_def addSearchInstances_def
                updateSearchInstances_def map_of_spread)

theorem bulk_add_update_equal_witness:
  "wf_object [(''status'', \<lparr>fvalue = Some ''active'', category = None\<rparr>)] \<and>
   wf_object [(''q'', \<lparr>query = \<lparr>value = Some ''new''\<rparr>, hasUrlSync = None\<rparr>)] \<and>
   map_of (updateFilters [(''status'', \<lparr>fvalue = Some ''active'', category = None\<rparr>)]
             [(''status'', \<lparr>fvalue = Some ''old'', category = Some ''state''\<rparr>)]) ''status''
     = Some \<lparr>fvalue = Some ''active'', category = None\<rparr> \<and>
   map_of (updateSearchInstances [(''q'', \<lparr>query = \<lparr>value = Some ''new''\<rparr>, hasUrlSync = None\<rparr>)]
             [(''q'', \<lparr>query = \<lparr>value = Some ''old''\<rparr>, hasUrlSync = Some True\<rparr>)]) ''q''
     = Some \<lparr>query = \<lparr>value = Some ''new''\<rparr>, hasUrlSync = None\<rparr>"
proof -
  let ?f = "[(''status'', \<lparr>fvalue = Some ''active'', category = None\<rparr>)]"
  let ?prev = "[(''status'', \<lparr>fvalue = Some ''old'', category = Some ''state''\<rparr>)]"
  let ?i = "[(''q'', \<lparr>query = \<lparr>value = Some ''new''\<rparr>, hasUrlSync = None\<rparr>)]"
  let ?s = "[(''q'', \<lparr>query = \<lparr>value = Some ''old''\<rparr>, hasUrlSync = Some True\<rparr>)]"
  have wf1: "wf_object ?f" and wf2: "wf_object ?i"
    by (simp_all add: wf_object_def)
  note fact = bulk_add_update_equal [of ?f ?prev ?i ?s]
  have e1: "addFilters ?f ?prev = updateFilters ?f ?prev"
    using fact by (rule conjunct1)
  have e2: "addSearchInstances ?i ?s = updateSearchInstances ?i ?s"
    using fact by (rule conjunct2 [THEN conjunct1])
  have m1: "map_of (addFilters ?f ?prev) = map_of ?prev ++ map_of ?f"
    using fact [THEN conjunct2, THEN conjunct2, THEN conjunct1] wf1 by (rule mp)
  have m2: "map_of (addSearchInstances ?i ?s) = map_of ?s ++ map_of ?i"
    using fact [THEN conjunct2, THEN conjunct2, THEN conjunct2] wf2 by (rule mp)
  have "map_of (updateFilters ?f ?prev) ''status'' = Some \<lparr>fvalue = Some ''active'', category = None\<rparr>"
    unfolding e1 [symmetric] m1 by simp
  moreover
  have "map_of (updateSearchInstances ?i ?s) ''q'' = Some \<lparr>query = \<lparr>value = Some ''new''\<rparr>, hasUrlSync = None\<rparr>"
    unfolding e2 [symmetric] m2 by simp
  ultimately show ?thesis
    using wf1 wf2 by (intro conjI)
qed

section \<open>Bulk removal\<close>

text \<open>
  C7. \<open>removeFilters\<close> (on a list of identifiers) and \<open>removeSearchInstances\<close> (on the keys
  of an object) return the store without the listed keys and with every other entry
  unchanged; no identifier makes them fail. The size of the result is the previous
  size minus the number of distinct listed identifiers that were present.
\<close>

theorem removeBulk_effect:
  assumes "wf_object prev" and "wf_object s"
  shows "map_of (removeFilters ids prev) = map_of prev |` (- set ids) \<and>
         length (Object_keys (removeFilters ids prev)) =
           length (Object_keys prev) - card (set ids \<inter> set (Object_keys prev)) \<and>
         map_of (removeSearchInstances instances s) = map_of s |` (- set (Object_keys instances)) \<and>
         length (Object_keys (removeSearchInstances instances s)) =
           length (Object_keys s) - card (set (Object_keys instances) \<inter> set (Object_keys s))"
proof (intro conjI)
  show "map_of (removeFilters ids prev) = map_of prev |` (- set ids)"
    by (simp add: removeFilters_def map_of_fold_delete)
  show "length (Object_keys (removeFilters ids prev)) =
           length (Object_keys prev) - card (set ids \<inter> set (Object_keys prev))"
    using assms(1) length_filter_keys [of prev "set ids"]
    by (simp add: removeFilters_def fold_delete_filter Object_keys_def wf_object_def)
  show "map_of (removeSearchInstances instances s) = map_of s |` (- set (Object_keys instances))"
    by (simp add: removeSearchInstances_def map_of_fold_delete)
  show "length (Object_keys (removeSearchInstances instances s)) =
           length (Object_keys s) - card (set (Object_keys instances) \<inter> set (Object_keys s))"
    using assms(2) length_filter_keys [of s "set (Object_keys instances)"]
    by (simp add: removeSearchInstances_def fold_delete_filter Object_keys_def wf_object_def)
qed

theorem removeBulk_effect_witness:
  "wf_object [(''x'', \<lparr>fvalue = Some (1::nat), category = None\<rparr>),
              (''z'', \<lparr>fvalue = None, category = Some ''c''\<rparr>)] \<and>
   wf_object [(''x'', \<lparr>query = \<lparr>value = Some ''p''\<rparr>, hasUrlSync = Some True\<rparr>)] \<and>
   removeFilters [''x'', ''y'', ''x'']
     [(''x'', \<lparr>fvalue = Some (1::nat), category = None\<rparr>),
      (''z'', \<lparr>fvalue = None, category = Some ''c''\<rparr>)]
     = [(''z'', \<lparr>fvalue = None, category = Some ''c''\<rparr>)] \<and>
   card (set [''x'', ''y'', ''x''] \<inter>
         set (Object_keys [(''x'', \<lparr>fvalue = Some (1::nat), category = None\<rparr>),
                           (''z'', \<lparr>fvalue = None, category = Some ''c''\<rparr>)])) = 1 \<and>
   removeSearchInstances [(''y'', \<lparr>query = \<lparr>value = None\<rparr>, hasUrlSync = None\<rparr>)]
     [(''x'', \<lparr>query = \<lparr>value = Some ''p''\<rparr>, hasUrlSync = Some True\<rparr>)]
     = [(''x'', \<lparr>query = \<lparr>value = Some ''p''\<rparr>, hasUrlSync = Some True\<rparr>)]"
proof -
  let ?prev = "[(''x'', \<lparr>fvalue = Some (1::nat), category = None\<rparr>),
                (''z'', \<lparr>fvalue = None, category = Some ''c''\<rparr>)]"
  let ?s = "[(''x'', \<lparr>query = \<lparr>value = Some ''p''\<rparr>, hasUrlSync = Some True\<rparr>)]"
  have wf1: "wf_object ?prev" and wf2: "wf_object ?s"
    by (simp_all add: wf_object_def)
  note fact = removeBulk_effect [OF wf1 wf2, of "[''x'', ''y'', ''x'']"
                "[(''y'', \<lparr>query = \<lparr>value = None\<rparr>, hasUrlSync = None\<rparr>)]"]
  have rem: "removeFilters [''x'', ''y'', ''x''] ?prev = [(''z'', \<lparr>fvalue = None, category = Some ''c''\<rparr>)]"
    by (simp add: removeFilters_def)
  have "length (Object_keys (removeFilters [''x'', ''y'', ''x''] ?prev)) =
           length (Object_keys ?prev) - card (set [''x'', ''y'', ''x''] \<inter> set (Object_keys ?prev))"
    using fact by (rule conjunct2 [THEN conjunct1])
  then have card: "card (set [''x'', ''y'', ''x''] \<inter> set (Object_keys ?prev)) = 1"
    by (simp add: rem Object_keys_def)
  have rem2: "removeSearchInstances [(''y'', \<lparr>query = \<lparr>value = None\<rparr>, hasUrlSync = None\<rparr>)] ?s = ?s"
    by (simp add: removeSearchInstances_def Object_keys_def)
  from wf1 wf2 rem card rem2 show ?thesis
    by (intro conjI)
qed

section \<open>Synchronising the query string\<close>

text \<open>
  C4. On Enter with the text \<open>''new''\<close>, for an entry that stores \<open>''old''\<close> and has
  synchronisation enabled, \<open>handleKeyDown\<close> supplies \<open>''new''\<close> as the value for the query
  string, yet the one push that \<open>updateUrlParam\<close> makes carries the stored value
  \<open>''old''\<close>: the supplied value is not used. (Without an explicit value the operation
  is as claimed, for an identifier that is stored or names no inherited member:
  \<open>updateUrlParam_disabled\<close>, \<open>updateUrlParam_enabled\<close>.)
\<close>

theorem handleKeyDown_pushes_stored_value:
  "handleKeyDown \<lparr>pathname = ''/items'', urlSearchParams = [], toString = plainToString\<rparr>
     [(''q'', \<lparr>query = \<lparr>value = Some ''old''\<rparr>, hasUrlSync = Some True\<rparr>)]
     ''q'' True ''Enter'' ''new''
   = ([(''q'', \<lparr>query = \<lparr>value = Some ''new''\<rparr>, hasUrlSync = Some True\<rparr>)],
      Inr [''/items?q=old''])"
  by (simp add: handleKeyDown_def updateSearchInstance_def prevSyncOrFalse_def
                updateUrlParam_def updateUrlParam_currentParams_def setParamFromStore_def
                Object_fromEntries_def queryValueOrEmpty_def getProperty_def)

text \<open>
  C6. \<open>updateUrlParams\<close> does not throw and makes exactly one push per call, to the
  current path with the serialised parameters. In these parameters every identifier of
  the store is set, whatever its \<^verbatim>\<open>hasUrlSync\<close> flag (true, false or missing), to its
  stored query value, or to the empty string when that value is \<^verbatim>\<open>null\<close>.
\<close>

theorem updateUrlParams_sets_every_entry:
  "\<exists>currentParams pushes.
     updateUrlParams_currentParams nav s = Inr currentParams \<and>
     updateUrlParams nav s = Inr pushes \<and>
     pushes = [pathname nav @ ''?'' @ toString nav currentParams] \<and>
     length pushes = 1 \<and>
     (\<forall>k inst. map_of s k = Some inst \<longrightarrow>
        URLSearchParams_get currentParams k =
          Some (case value (query inst) of None \<Rightarrow> [] | Some v \<Rightarrow> v))"
proof -
  from forEach_setParamFromStore_own
         [of "Object_keys s" s "Object_fromEntries (urlSearchParams nav)"]
  obtain currentParams where run: "updateUrlParams_currentParams nav s = Inr currentParams"
    and loop: "\<And>x. map_of currentParams x =
        (if x \<in> set (Object_keys s)
         then map_option (\<lambda>inst. case value (query inst) of None \<Rightarrow> [] | Some v \<Rightarrow> v)
                (map_of s x)
         else map_of (Object_fromEntries (urlSearchParams nav)) x)"
    by (auto simp: updateUrlParams_currentParams_def)
  let ?pushes = "[pathname nav @ ''?'' @ toString nav currentParams]"
  have push: "updateUrlParams nav s = Inr ?pushes"
    by (simp add: updateUrlParams_def run)
  have one: "length ?pushes = 1"
    by simp
  have entry: "URLSearchParams_get currentParams k =
          Some (case value (query inst) of None \<Rightarrow> [] | Some v \<Rightarrow> v)"
    if "map_of s k = Some inst" for k inst
    using that entry_own_key [OF that] by (simp add: URLSearchParams_get_def loop)
  from run push one entry show ?thesis
    by blast
qed

theorem updateUrlParams_sets_every_entry_witness:
  "map_of [(''a'', \<lparr>query = \<lparr>value = Some ''x''\<rparr>, hasUrlSync = Some False\<rparr>),
           (''b'', \<lparr>query = \<lparr>value = None\<rparr>, hasUrlSync = None\<rparr>)] ''b''
     = Some \<lparr>query = \<lparr>value = None\<rparr>, hasUrlSync = None\<rparr> \<and>
   updateUrlParams_currentParams
     \<lparr>pathname = ''/items'', urlSearchParams = [(''b'', ''z'')], toString = plainToString\<rparr>
     [(''a'', \<lparr>query = \<lparr>value = Some ''x''\<rparr>, hasUrlSync = Some False\<rparr>),
      (''b'', \<lparr>query = \<lparr>value = None\<rparr>, hasUrlSync = None\<rparr>)]
     = Inr [(''b'', []), (''a'', ''x'')] \<and>
   URLSearchParams_get [(''b'', []), (''a'', ''x'')] ''b'' = Some [] \<and>
   updateUrlParams
     \<lparr>pathname = ''/items'', urlSearchParams = [(''b'', ''z'')], toString = plainToString\<rparr>
     [(''a'', \<lparr>query = \<lparr>value = Some ''x''\<rparr>, hasUrlSync = Some False\<rparr>),
      (''b'', \<lparr>query = \<lparr>value = None\<rparr>, hasUrlSync = None\<rparr>)] = Inr [''/items?b=&a=x'']"
  using updateUrlParams_sets_every_entry
    [of "\<lparr>pathname = ''/items'', urlSearchParams = [(''b'', ''z'')], toString = plainToString\<rparr>"
        "[(''a'', \<lparr>query = \<lparr>value = Some ''x''\<rparr>, hasUrlSync = Some False\<rparr>),
          (''b'', \<lparr>query = \<lparr>value = None\<rparr>, hasUrlSync = None\<rparr>)]"]
  by (simp add: updateUrlParams_def updateUrlParams_currentParams_def setParamFromStore_def
                Object_keys_def Object_fromEntries_def queryValueOrEmpty_def getProperty_def
                URLSearchParams_get_def)

end
